theory Spec2Isabelle
  imports Complex_Main
begin

section \<open>Errors and tensors\<close>

text \<open>
  The invertible network of \<^verbatim>\<open>src/model/src/distill/models/iRevNet.py\<close> is embedded as
  HOL functions. Every place where the Python can raise is a branch that returns an
  error value.
\<close>

datatype error = TypeError | IndexError | ZeroDivisionError | ValueError | ShapeError

definition bindE :: "error + 'a \<Rightarrow> ('a \<Rightarrow> error + 'b) \<Rightarrow> error + 'b" where
  "bindE m f = (case m of Inl e \<Rightarrow> Inl e | Inr v \<Rightarrow> f v)"

text \<open>
  A tensor is one sample in channel-major layout: a list of channels, each a list of
  rows, each a list of elements. The batch axis, over which every operation of the
  source maps, is left out. Elements come from an abelian group, so addition and
  negation are exact ("infinite precision").
\<close>

type_synonym 'a tensor = "'a list list list"

definition height :: "'a tensor \<Rightarrow> nat" where
  "height t = (case t of [] \<Rightarrow> 0 | p # _ \<Rightarrow> length p)"

definition width :: "'a tensor \<Rightarrow> nat" where
  "width t = (case t of [] \<Rightarrow> 0 | p # _ \<Rightarrow> (case p of [] \<Rightarrow> 0 | r # _ \<Rightarrow> length r))"

definition shape :: "'a tensor \<Rightarrow> nat \<times> nat \<times> nat" where
  "shape t = (length t, height t, width t)"

definition is_tensor :: "'a tensor \<Rightarrow> bool" where
  "is_tensor t =
     list_all (\<lambda>p. length p = height t \<and> list_all (\<lambda>r. length r = width t) p) t"

text \<open>
  Tensor addition \<^verbatim>\<open>Fx2 + x1\<close> and negation \<^verbatim>\<open>- F(x2)\<close> belong to the tensor
  framework. On operands of the same shape the sum is elementwise. On operands of
  different shapes the framework raises, or broadcasts an axis of size one; broadcasting
  is not modelled, and every sum of operands of different shapes is a shape error here.
  So a sum that returns is the elementwise sum of two tensors of one shape, and a
  statement on the result of a pass that returns is a statement on passes that add
  tensors of one shape.
\<close>

definition tadd :: "('a::ab_group_add) tensor \<Rightarrow> 'a tensor \<Rightarrow> error + 'a tensor" where
  "tadd a b =
     (if map (map length) a = map (map length) b
      then Inr (map2 (map2 (map2 (+))) a b)
      else Inl ShapeError)"

definition tneg :: "('a::ab_group_add) tensor \<Rightarrow> 'a tensor" where
  "tneg a = map (map (map uminus)) a"

section \<open>The helpers imported from model_utils\<close>

text \<open>
  Modelled from the spec: \<^verbatim>\<open>merge\<close> is imported from \<^verbatim>\<open>model_utils\<close>, which is not
  among the sources. The spec: merge and split are mutual inverses partitioning channels
  in a fixed, deterministic order; a shape error fails at the offending operation. Merge
  concatenates the channels of its two arguments, first argument first, and fails when
  the planes do not all have one spatial shape.
\<close>

definition merge :: "'a tensor \<Rightarrow> 'a tensor \<Rightarrow> error + 'a tensor" where
  "merge x1 x2 = (if is_tensor (x1 @ x2) then Inr (x1 @ x2) else Inl ShapeError)"

text \<open>
  Modelled from the spec: \<^verbatim>\<open>split\<close> is imported from \<^verbatim>\<open>model_utils\<close>, which is not
  among the sources. The spec: the two-way split gives an ordered pair of tensors whose
  channel counts sum to the total, and split and merge are mutual inverses partitioning
  the channels in a fixed, deterministic order. Split cuts the channel list after its
  first \<open>length div 2\<close> channels. This is the cut that \<^verbatim>\<open>iRevNet.forward\<close> makes itself
  (\<^verbatim>\<open>n = self.in_ch//2\<close>, \<^verbatim>\<open>x[:, :n]\<close>, \<^verbatim>\<open>x[:, n:]\<close>) and that \<^verbatim>\<open>iRevNet.inverse\<close> undoes
  with \<^verbatim>\<open>split\<close> and \<^verbatim>\<open>merge\<close>. With an odd channel count the second part is one channel
  longer than the first: the networks that \<^verbatim>\<open>iRevNet.py\<close> defines have 3 input channels,
  and the spec asks that their inverse reconstructs the input, so the split of an odd
  channel count returns. The spec's section on errors lists a channel count that is not
  evenly splittable among the shape errors; that is left out, since with it the inverse
  of each of those networks would raise.
\<close>

definition split :: "'a tensor \<Rightarrow> error + ('a tensor \<times> 'a tensor)" where
  "split x = (let n = length x div 2 in Inr (take n x, drop n x))"

text \<open>
  Modelled from the spec: \<^verbatim>\<open>injective_pad\<close> is imported from \<^verbatim>\<open>model_utils\<close>, which is
  not among the sources. The spec: injective padding pads extra zero channels and is
  inverted by truncation, which removes the injected channels. The module is built from
  the number of channels to inject. The spec speaks of padding with extra channels only:
  a negative size is outside it and is reported as \<open>ValueError\<close>, and so is a truncation
  by more channels than the tensor has.
\<close>

record injective_pad =
  pad_size :: int

definition injective_pad_init :: "int \<Rightarrow> injective_pad" where
  "injective_pad_init n = \<lparr>pad_size = n\<rparr>"

text \<open>
  Modelled from the spec: the forward pass of \<^verbatim>\<open>injective_pad\<close> (not among the sources)
  pads extra zero channels: \<open>pad_size\<close> planes of zeros, of the spatial shape of the
  input, after the channels of the input.
\<close>

definition zero_plane :: "nat \<Rightarrow> nat \<Rightarrow> ('a::zero) list list" where
  "zero_plane h w = replicate h (replicate w 0)"

definition inj_pad_forward :: "injective_pad \<Rightarrow> ('a::zero) tensor \<Rightarrow> error + 'a tensor" where
  "inj_pad_forward p x =
     (if pad_size p < 0 then Inl ValueError
      else Inr (x @ replicate (nat (pad_size p)) (zero_plane (height x) (width x))))"

text \<open>
  Modelled from the spec: the inverse of \<^verbatim>\<open>injective_pad\<close> (not among the sources)
  truncates: it removes the last \<open>pad_size\<close> channels.
\<close>

definition inj_pad_inverse :: "injective_pad \<Rightarrow> 'a tensor \<Rightarrow> error + 'a tensor" where
  "inj_pad_inverse p x =
     (if pad_size p < 0 \<or> int (length x) < pad_size p then Inl ValueError
      else Inr (take (length x - nat (pad_size p)) x))"

text \<open>
  Modelled from the spec: \<^verbatim>\<open>psi\<close> is imported from \<^verbatim>\<open>model_utils\<close>, which is not
  among the sources. The spec: the spatial permutation operator is a fixed bijection
  trading spatial resolution for channel depth, with its exact inverse. The module is
  built from a block size \<open>bs\<close>. Forward turns \<open>C\<close> channels of \<open>H \<times> W\<close> elements into
  \<open>bs * bs * C\<close> channels of \<open>(H div bs) \<times> (W div bs)\<close> elements: output channel
  \<open>(i * bs + j) * C + c\<close> holds the elements of input channel \<open>c\<close> at the rows
  \<open>h * bs + i\<close> and columns \<open>w * bs + j\<close>. A spatial dimension that the block size does
  not divide is a shape error. The order of the output channels is a choice of this
  model; the statements below use only that the operator is undone by its inverse and
  what it does to the shape.
\<close>

record psi =
  block_size :: int

definition psi_init :: "int \<Rightarrow> psi" where
  "psi_init n = \<lparr>block_size = n\<rparr>"

text \<open>
  Modelled from the spec: the forward pass of \<^verbatim>\<open>psi\<close> (not among the sources), trading
  spatial resolution for channel depth. \<open>sub_plane\<close> picks from a plane the elements at
  the rows \<open>h * bs + i\<close> and the columns \<open>w * bs + j\<close>.
\<close>

definition sub_plane :: "nat \<Rightarrow> nat \<Rightarrow> nat \<Rightarrow> nat \<Rightarrow> nat \<Rightarrow> 'a list list \<Rightarrow> 'a list list" where
  "sub_plane bs hh ww i j p =
     map (\<lambda>h. map (\<lambda>w. p ! (h * bs + i) ! (w * bs + j)) [0..<ww]) [0..<hh]"

definition psi_forward :: "psi \<Rightarrow> 'a tensor \<Rightarrow> error + 'a tensor" where
  "psi_forward P t =
     (let bs = nat (block_size P); C = length t
      in if block_size P \<le> 0 \<or> \<not> is_tensor t \<or> \<not> bs dvd height t \<or> \<not> bs dvd width t
         then Inl ShapeError
         else Inr (map (\<lambda>m. sub_plane bs (height t div bs) (width t div bs)
                                ((m div C) div bs) ((m div C) mod bs) (t ! (m mod C)))
                     [0..<bs * bs * C]))"

text \<open>
  Modelled from the spec: the inverse of \<^verbatim>\<open>psi\<close> (not among the sources), trading channel
  depth for spatial resolution: element \<open>(y, x)\<close> of output channel \<open>c\<close> comes from input
  channel \<open>((y mod bs) * bs + x mod bs) * C + c\<close>, where \<open>C\<close> is the number of output
  channels. A channel count that \<open>bs * bs\<close> does not divide is a shape error.
\<close>

definition psi_inverse :: "psi \<Rightarrow> 'a tensor \<Rightarrow> error + 'a tensor" where
  "psi_inverse P u =
     (let bs = nat (block_size P); C = length u div (bs * bs)
      in if block_size P \<le> 0 \<or> \<not> is_tensor u \<or> \<not> (bs * bs) dvd length u
         then Inl ShapeError
         else Inr (map (\<lambda>c. map (\<lambda>y. map (\<lambda>x.
                        u ! (((y mod bs) * bs + x mod bs) * C + c) ! (y div bs) ! (x div bs))
                      [0..<width u * bs]) [0..<height u * bs]) [0..<C]))"

section \<open>The coupling block\<close>

text \<open>
  The layers that \<^verbatim>\<open>irevnet_block.__init__\<close> puts into the bottleneck, as descriptions:
  a convolution is described by its input channels, output channels and stride (kernel
  size 3 and padding 1 throughout), a normalisation by its feature count and the
  \<^verbatim>\<open>affine\<close> flag.
\<close>

datatype layer =
    BatchNorm2d int bool
  | ReLU
  | Conv2d int int int
  | Dropout real

text \<open>
  The fields \<^verbatim>\<open>__init__\<close> assigns. \<open>bottleneck_block\<close> is the learned transform \<open>F\<close>:
  the framework's \<^verbatim>\<open>nn.Sequential\<close> of the layers, taken as a function of its input
  that may raise. Taking it as a function is the assumption that two evaluations of
  \<open>F\<close> on one input agree.
\<close>

record 'a irevnet_block =
  first :: bool
  pad :: int
  stride :: int
  inj_pad :: injective_pad
  psi :: psi
  bottleneck_block :: "'a tensor \<Rightarrow> error + 'a tensor"

definition block_layers :: "int \<Rightarrow> int \<Rightarrow> int \<Rightarrow> bool \<Rightarrow> real \<Rightarrow> bool \<Rightarrow> int \<Rightarrow> layer list" where
  "block_layers in_ch out_ch strd frst dropout_rate affineBN mult =
     (if \<not> frst then [BatchNorm2d (in_ch div 2) affineBN, ReLU] else []) @
     [Conv2d (in_ch div 2) (out_ch div mult) strd,
      BatchNorm2d (out_ch div mult) affineBN,
      ReLU,
      Conv2d (out_ch div mult) (out_ch div mult) 1,
      Dropout dropout_rate,
      BatchNorm2d (out_ch div mult) affineBN,
      ReLU,
      Conv2d (out_ch div mult) out_ch 1]"

text \<open>
  \<^verbatim>\<open>irevnet_block.__init__\<close>. The parameter \<open>sequential\<close> stands for the framework's
  layer constructors and \<^verbatim>\<open>nn.Sequential\<close>: it turns the layer descriptions into the
  transform, or raises. \<^verbatim>\<open>out_ch//mult\<close> raises \<^verbatim>\<open>ZeroDivisionError\<close> when \<open>mult\<close> is 0.
\<close>

definition irevnet_block_init ::
  "(layer list \<Rightarrow> error + ('a tensor \<Rightarrow> error + 'a tensor)) \<Rightarrow>
   int \<Rightarrow> int \<Rightarrow> int \<Rightarrow> bool \<Rightarrow> real \<Rightarrow> bool \<Rightarrow> int \<Rightarrow> error + 'a irevnet_block" where
  "irevnet_block_init sequential in_ch out_ch strd frst dropout_rate affineBN mult =
     (let pd = 2 * out_ch - in_ch;
          in_ch = (if pd \<noteq> 0 \<and> strd = 1 then out_ch * 2 else in_ch)
      in if mult = 0 then Inl ZeroDivisionError
         else bindE (sequential (block_layers in_ch out_ch strd frst dropout_rate affineBN mult))
                (\<lambda>F. Inr \<lparr>first = frst, pad = pd, stride = strd,
                            inj_pad = injective_pad_init pd, psi = psi_init strd,
                            bottleneck_block = F\<rparr>))"

text \<open>\<^verbatim>\<open>irevnet_block.forward\<close>: the argument and the result are pairs of tensors.\<close>

definition irevnet_block_forward ::
  "('a::ab_group_add) irevnet_block \<Rightarrow> 'a tensor \<times> 'a tensor \<Rightarrow> error + ('a tensor \<times> 'a tensor)" where
  "irevnet_block_forward b x =
     bindE (if pad b \<noteq> 0 \<and> stride b = 1
            then bindE (merge (fst x) (snd x))
                   (\<lambda>x. bindE (inj_pad_forward (inj_pad b) x) split)
            else Inr x)
       (\<lambda>x. let x1 = fst x; x2 = snd x in
          bindE (bottleneck_block b x2)
            (\<lambda>Fx2. bindE (if stride b = 2
                           then bindE (psi_forward (psi b) x1)
                                  (\<lambda>x1. bindE (psi_forward (psi b) x2) (\<lambda>x2. Inr (x1, x2)))
                           else Inr (x1, x2))
                      (\<lambda>(x1, x2). bindE (tadd Fx2 x1) (\<lambda>y1. Inr (x2, y1)))))"

text \<open>\<^verbatim>\<open>irevnet_block.inverse\<close>.\<close>

definition irevnet_block_inverse ::
  "('a::ab_group_add) irevnet_block \<Rightarrow> 'a tensor \<times> 'a tensor \<Rightarrow> error + ('a tensor \<times> 'a tensor)" where
  "irevnet_block_inverse b x =
     (let x2 = fst x; y1 = snd x in
      bindE (if stride b = 2 then psi_inverse (psi b) x2 else Inr x2)
        (\<lambda>x2. bindE (bottleneck_block b x2)
          (\<lambda>F. let Fx2 = tneg F in
             bindE (tadd Fx2 y1)
               (\<lambda>x1. bindE (if stride b = 2 then psi_inverse (psi b) x1 else Inr x1)
                  (\<lambda>x1. if pad b \<noteq> 0 \<and> stride b = 1
                         then bindE (merge x1 x2)
                                (\<lambda>x. bindE (inj_pad_inverse (inj_pad b) x) split)
                         else Inr (x1, x2))))))"



section \<open>The stack of blocks and the network\<close>

text \<open>
  \<^verbatim>\<open>iRevNet.irevnet_stack\<close>, first loop: the per-stage schedule is expanded into the lists
  \<open>strides\<close> and \<open>channels\<close>. \<^verbatim>\<open>zip\<close> stops at the shortest of the three lists, and
  a list times a negative number is the empty list.
\<close>

definition stage_schedule :: "int list \<Rightarrow> int list \<Rightarrow> int list \<Rightarrow> int list \<times> int list" where
  "stage_schedule nChannels nBlocks nStrides =
     fold (\<lambda>(channel, depth, strd) (strides, channels).
             (strides @ ([strd] @ replicate (nat (depth - 1)) 1),
              channels @ replicate (nat depth) channel))
          (zip nChannels (zip nBlocks nStrides)) ([], [])"

text \<open>
  Second loop: one block per pair of \<^verbatim>\<open>zip(channels, strides)\<close>, built by the constructor
  \<open>block\<close> that the method receives as \<^verbatim>\<open>_block\<close>. The running \<open>in_ch\<close> and the flag
  \<^verbatim>\<open>self.first\<close> are threaded through; the flag is returned next to the list, since the
  method leaves it changed in the network object.
\<close>

fun build_blocks ::
  "(int \<Rightarrow> int \<Rightarrow> int \<Rightarrow> bool \<Rightarrow> real \<Rightarrow> bool \<Rightarrow> int \<Rightarrow> error + 'b) \<Rightarrow>
   real \<Rightarrow> bool \<Rightarrow> int \<Rightarrow> int \<Rightarrow> bool \<Rightarrow> (int \<times> int) list \<Rightarrow> error + ('b list \<times> bool)" where
  "build_blocks block dropout_rate affineBN mult in_ch self_first [] = Inr ([], self_first)"
| "build_blocks block dropout_rate affineBN mult in_ch self_first ((channel, strd) # rest) =
     bindE (block in_ch channel strd self_first dropout_rate affineBN mult)
       (\<lambda>b. bindE (build_blocks block dropout_rate affineBN mult (2 * channel) False rest)
          (\<lambda>(block_list, self_first). Inr (b # block_list, self_first)))"

definition irevnet_stack ::
  "bool \<Rightarrow> (int \<Rightarrow> int \<Rightarrow> int \<Rightarrow> bool \<Rightarrow> real \<Rightarrow> bool \<Rightarrow> int \<Rightarrow> error + 'b) \<Rightarrow>
   int list \<Rightarrow> int list \<Rightarrow> int list \<Rightarrow> real \<Rightarrow> bool \<Rightarrow> int \<Rightarrow> int \<Rightarrow>
   error + ('b list \<times> bool)" where
  "irevnet_stack self_first block nChannels nBlocks nStrides dropout_rate affineBN in_ch mult =
     (let (strides, channels) = stage_schedule nChannels nBlocks nStrides
      in build_blocks block dropout_rate affineBN mult in_ch self_first (zip channels strides))"

text \<open>
  The fields \<^verbatim>\<open>iRevNet.__init__\<close> assigns. A field whose name is also a parameter name
  of the source carries the prefix \<open>self_\<close>. \<open>bn1\<close> and \<open>linear\<close> hold the sizes the two
  framework modules are built with.
\<close>

record 'a iRevNet =
  ds :: int
  self_init_ds :: nat
  self_in_ch :: int
  self_nBlocks :: "int list"
  self_first :: bool
  init_psi :: psi
  stack :: "'a irevnet_block list"
  bn1 :: int
  linear :: "int \<times> int"

text \<open>
  \<^verbatim>\<open>iRevNet.__init__\<close>. \<open>in_shape\<close> and \<open>nChannels\<close> default to \<^verbatim>\<open>None\<close>; subscripting
  \<^verbatim>\<open>None\<close> raises \<^verbatim>\<open>TypeError\<close> and a list shorter than three \<^verbatim>\<open>IndexError\<close>.
  \<open>init_ds\<close> is a natural number: with a negative one \<^verbatim>\<open>2**init_ds\<close> is a float.
\<close>

definition iRevNet_init ::
  "(layer list \<Rightarrow> error + ('a tensor \<Rightarrow> error + 'a tensor)) \<Rightarrow>
   int list \<Rightarrow> int list \<Rightarrow> int \<Rightarrow> int list option \<Rightarrow> nat \<Rightarrow> real \<Rightarrow> bool \<Rightarrow>
   int list option \<Rightarrow> int \<Rightarrow> error + 'a iRevNet" where
  "iRevNet_init sequential nBlocks nStrides nClasses nChannels init_ds dropout_rate affineBN
      in_shape mult =
     (case in_shape of
        None \<Rightarrow> Inl TypeError
      | Some in_shape \<Rightarrow>
          if length in_shape < 3 then Inl IndexError
          else
            let ds' = (in_shape ! 2) div 2 ^ (count_list nStrides 2 + init_ds div 2);
                in_ch = (in_shape ! 0) * 2 ^ init_ds;
                default = [in_ch div 2, in_ch div 2 * 4, in_ch div 2 * 4 ^ 2, in_ch div 2 * 4 ^ 3];
                nChannels = (case nChannels of None \<Rightarrow> default | Some [] \<Rightarrow> default
                             | Some cs \<Rightarrow> cs)
            in bindE (irevnet_stack True (irevnet_block_init sequential) nChannels nBlocks nStrides
                        dropout_rate affineBN in_ch mult)
                 (\<lambda>(block_list, frst).
                    Inr \<lparr>ds = ds', self_init_ds = init_ds, self_in_ch = in_ch,
                         self_nBlocks = nBlocks, self_first = frst,
                         init_psi = psi_init (int init_ds), stack = block_list,
                         bn1 = last nChannels * 2, linear = (last nChannels * 2, nClasses)\<rparr>))"









section \<open>Example configurations\<close>

text \<open>
  Two transforms on integer tensors, two layer constructors, a head that returns the
  channel count, and three blocks, used to run the definitions on concrete inputs: a
  block that injects two zero channels at stride 1, a block of stride 2 whose transform
  halves the resolution as a strided convolution does, and a block of stride 1 without
  padding. The first layer constructor returns the first transform whatever the layers;
  the second returns the transform that halves the resolution when a convolution among
  the layers has stride 2.
\<close>

definition square_plus_one :: "int tensor \<Rightarrow> error + int tensor" where
  "square_plus_one t = Inr (map (map (map (\<lambda>v. v * v + 1))) t)"

definition strided_squares :: "int tensor \<Rightarrow> error + int tensor" where
  "strided_squares t = bindE (psi_forward (psi_init 2) t) square_plus_one"

definition square_sequential ::
  "layer list \<Rightarrow> error + (int tensor \<Rightarrow> error + int tensor)" where
  "square_sequential layers = Inr square_plus_one"



definition padded_block :: "int irevnet_block" where
  "padded_block = \<lparr>first = True, pad = 2, stride = 1, inj_pad = injective_pad_init 2,
                    psi = psi_init 1, bottleneck_block = square_plus_one\<rparr>"

definition strided_block :: "int irevnet_block" where
  "strided_block = \<lparr>first = False, pad = 6, stride = 2, inj_pad = injective_pad_init 6,
                    psi = psi_init 2, bottleneck_block = strided_squares\<rparr>"

definition plain_block :: "int irevnet_block" where
  "plain_block = \<lparr>first = False, pad = 0, stride = 1, inj_pad = injective_pad_init 0,
                   psi = psi_init 1, bottleneck_block = square_plus_one\<rparr>"

text \<open>
  The block that \<^verbatim>\<open>irevnet_block.__init__\<close> builds from \<open>in_ch = 3\<close>, \<open>out_ch = 2\<close> and
  stride 1: it injects one channel.
\<close>

definition odd_block :: "int irevnet_block" where
  "odd_block = \<lparr>first = True, pad = 1, stride = 1, inj_pad = injective_pad_init 1,
                 psi = psi_init 1, bottleneck_block = square_plus_one\<rparr>"

text \<open>
  A network with an initial permutation of block size 2 and one block, as
  \<^verbatim>\<open>iRevNet.__init__\<close> builds it from \<open>nBlocks = [1]\<close>, \<open>nStrides = [1]\<close>,
  \<open>nChannels = [2]\<close>, \<open>init_ds = 2\<close> and \<open>in_shape = [1, 2, 2]\<close>.
\<close>

definition small_net :: "int iRevNet" where
  "small_net =
     \<lparr>ds = 1, self_init_ds = 2, self_in_ch = 4, self_nBlocks = [1], self_first = False,
      init_psi = psi_init 2,
      stack = [\<lparr>first = True, pad = 0, stride = 1, inj_pad = injective_pad_init 0,
                psi = psi_init 1, bottleneck_block = square_plus_one\<rparr>],
      bn1 = 4, linear = (4, 10)\<rparr>"

text \<open>
  A block constructor that returns the arguments \<^verbatim>\<open>irevnet_stack\<close> passes for
  \<open>in_ch\<close>, the output channels, \<open>stride\<close> and \<open>first\<close>, to read off the schedule.
\<close>

definition record_args ::
  "int \<Rightarrow> int \<Rightarrow> int \<Rightarrow> bool \<Rightarrow> real \<Rightarrow> bool \<Rightarrow> int \<Rightarrow> error + (int \<times> int \<times> int \<times> bool)" where
  "record_args in_ch out_ch strd frst dropout_rate affineBN mult = Inr (in_ch, out_ch, strd, frst)"

text \<open>
  The network \<^verbatim>\<open>iRevNet.__init__\<close> builds from \<open>nBlocks = [1]\<close>, \<open>nStrides = [1, 2]\<close>,
  \<open>nChannels = [16, 64]\<close>, \<open>init_ds = 0\<close> and \<open>in_shape = [32, 8, 8]\<close>.
\<close>

definition mismatched_net :: "int iRevNet" where
  "mismatched_net =
     \<lparr>ds = 4, self_init_ds = 0, self_in_ch = 32, self_nBlocks = [1], self_first = False,
      init_psi = psi_init 0,
      stack = [\<lparr>first = True, pad = 0, stride = 1, inj_pad = injective_pad_init 0,
                psi = psi_init 1, bottleneck_block = square_plus_one\<rparr>],
      bn1 = 128, linear = (128, 10)\<rparr>"


text \<open>
  The network \<^verbatim>\<open>iRevNet.__init__\<close> builds from \<open>nBlocks = [1, 1]\<close>, \<open>nStrides = [1, 2]\<close>,
  \<open>init_ds = 0\<close> and \<open>in_shape = [2, 2, 2]\<close> when \<open>nChannels\<close> is omitted or empty: the
  blocks are those of the first two stages of the schedule \<open>[1, 4, 16, 64]\<close>, and the
  head has the size of its last stage.
\<close>

definition default_net :: "int iRevNet" where
  "default_net =
     \<lparr>ds = 1, self_init_ds = 0, self_in_ch = 2, self_nBlocks = [1, 1], self_first = False,
      init_psi = psi_init 0,
      stack = [\<lparr>first = True, pad = 0, stride = 1, inj_pad = injective_pad_init 0,
                psi = psi_init 1, bottleneck_block = square_plus_one\<rparr>,
               \<lparr>first = False, pad = 6, stride = 2, inj_pad = injective_pad_init 6,
                psi = psi_init 2, bottleneck_block = square_plus_one\<rparr>],
      bn1 = 128, linear = (128, 10)\<rparr>"

section \<open>Proofs\<close>

subsection \<open>Split and merge\<close>

lemma is_tensor_append_same:
  assumes "is_tensor a" "is_tensor b" "shape a = shape b"
  shows "is_tensor (a @ b)"
proof (cases a)
  case Nil
  with assms show ?thesis by (simp add: shape_def)
next
  case (Cons p ps)
  then have "height (a @ b) = height a" "width (a @ b) = width a"
    by (simp_all add: height_def width_def)
  moreover from assms have "height b = height a" "width b = width a"
    by (simp_all add: shape_def)
  ultimately show ?thesis
    using assms(1,2) by (simp add: is_tensor_def)
qed

lemma split_floor:
  "length a = (length a + length b) div 2 \<Longrightarrow> split (a @ b) = Inr (a, b)"
  by (simp add: split_def Let_def)

lemma split_halves:
  "length a = length b \<Longrightarrow> split (a @ b) = Inr (a, b)"
  by (rule split_floor) simp

lemma merge_split_halves:
  assumes "is_tensor t" "even (length t)"
  shows "bindE (split t) (\<lambda>(a, b). merge a b) = Inr t"
  using assms by (simp add: split_def Let_def bindE_def merge_def)

text \<open>
  C8. For a tensor \<open>t\<close> with an even channel count, merging the two halves that split
  returns gives \<open>t\<close> back; for two tensors \<open>a\<close>, \<open>b\<close> of equal shape, splitting their
  merge returns the pair \<open>(a, b)\<close>.
\<close>

theorem split_merge_mutual_inverses:
  "(is_tensor t \<and> even (length t) \<longrightarrow> bindE (split t) (\<lambda>(a, b). merge a b) = Inr t) \<and>
   (is_tensor a \<and> is_tensor b \<and> shape a = shape b \<longrightarrow> bindE (merge a b) split = Inr (a, b))"
proof (intro conjI impI)
  assume "is_tensor t \<and> even (length t)"
  then show "bindE (split t) (\<lambda>(a, b). merge a b) = Inr t"
    by (simp add: merge_split_halves)
next
  assume h: "is_tensor a \<and> is_tensor b \<and> shape a = shape b"
  then have "is_tensor (a @ b)" by (simp add: is_tensor_append_same)
  moreover from h have "length a = length b" by (simp add: shape_def)
  ultimately show "bindE (merge a b) split = Inr (a, b)"
    by (simp add: merge_def bindE_def split_halves)
qed

theorem split_merge_mutual_inverses_witness:
  "is_tensor [[[1, 2]], [[3, 4 :: int]]] \<and> even (length [[[1, 2]], [[3, 4 :: int]]]) \<and>
   bindE (split [[[1, 2]], [[3, 4 :: int]]]) (\<lambda>(a, b). merge a b) = Inr [[[1, 2]], [[3, 4]]] \<and>
   is_tensor [[[5, 6 :: int]]] \<and> is_tensor [[[7, 8 :: int]]] \<and>
   shape [[[5, 6 :: int]]] = shape [[[7, 8 :: int]]] \<and>
   bindE (merge [[[5, 6 :: int]]] [[[7, 8]]]) split = Inr ([[[5, 6]]], [[[7, 8]]])"
proof -
  have t: "is_tensor [[[1, 2]], [[3, 4 :: int]]] \<and> even (length [[[1, 2]], [[3, 4 :: int]]])"
    by (simp add: is_tensor_def height_def width_def)
  have ab: "is_tensor [[[5, 6 :: int]]] \<and> is_tensor [[[7, 8 :: int]]] \<and>
      shape [[[5, 6 :: int]]] = shape [[[7, 8 :: int]]]"
    by (simp add: is_tensor_def height_def width_def shape_def)
  show ?thesis
    using t ab
      split_merge_mutual_inverses [of "[[[1, 2]], [[3, 4 :: int]]]" "[[[5, 6 :: int]]]" "[[[7, 8 :: int]]]"]
    by blast
qed

subsection \<open>Tensor addition\<close>

lemma bindE_Inr_iff: "bindE m f = Inr y \<longleftrightarrow> (\<exists>v. m = Inr v \<and> f v = Inr y)"
  by (cases m) (simp_all add: bindE_def)

lemma bindE_Inr [simp]: "bindE (Inr v) f = f v"
  by (simp add: bindE_def)

lemma bindE_Inl [simp]: "bindE (Inl e) f = Inl e"
  by (simp add: bindE_def)

lemma vec_cancel:
  "length f = length x \<Longrightarrow> map2 (+) (map uminus f) (map2 (+) f x) = (x :: ('a::ab_group_add) list)"
  by (induction f x rule: list_induct2) simp_all

lemma plane_cancel:
  assumes "map length F = map length X"
  shows "map2 (map2 (+)) (map (map uminus) F) (map2 (map2 (+)) F X) = (X :: ('a::ab_group_add) list list)"
proof -
  from assms have "length F = length X" by (metis length_map)
  then show ?thesis using assms
    by (induction F X rule: list_induct2) (simp_all add: vec_cancel)
qed

lemma tensor_cancel:
  assumes "map (map length) F = map (map length) X"
  shows "map2 (map2 (map2 (+))) (map (map (map uminus)) F) (map2 (map2 (map2 (+))) F X)
           = (X :: ('a::ab_group_add) tensor)"
proof -
  from assms have "length F = length X" by (metis length_map)
  then show ?thesis using assms
    by (induction F X rule: list_induct2) (simp_all add: plane_cancel)
qed

lemma plane_dims:
  assumes "map length F = map length X"
  shows "map length (map2 (map2 g) F X) = map length X"
proof -
  from assms have "length F = length X" by (metis length_map)
  then show ?thesis using assms
    by (induction F X rule: list_induct2) simp_all
qed

lemma tensor_dims:
  assumes "map (map length) F = map (map length) X"
  shows "map (map length) (map2 (map2 (map2 g)) F X) = map (map length) X"
proof -
  from assms have "length F = length X" by (metis length_map)
  then show ?thesis using assms
    by (induction F X rule: list_induct2) (simp_all add: plane_dims del: map_map)
qed

lemma tneg_dims: "map (map length) (tneg F) = map (map length) F"
  by (simp add: tneg_def comp_def)

lemma tadd_dims: "tadd F x = Inr y \<Longrightarrow> map (map length) y = map (map length) x"
  using tensor_dims[of F x "(+)"] by (auto simp: tadd_def simp del: map_map split: if_splits)


lemma tadd_tneg_cancel:
  assumes "tadd F x = Inr y"
  shows "tadd (tneg F) y = Inr x"
proof -
  from assms have d: "map (map length) F = map (map length) x"
    and y: "y = map2 (map2 (map2 (+))) F x"
    by (auto simp: tadd_def split: if_splits)
  have "map (map length) (tneg F) = map (map length) y"
    using d tadd_dims[OF assms] by (simp add: tneg_dims)
  then show ?thesis
    using tensor_cancel[OF d] y by (simp add: tadd_def tneg_def)
qed

subsection \<open>Padding and the spatial permutation\<close>

lemma inj_pad_roundtrip:
  "inj_pad_forward p x = Inr y \<Longrightarrow> inj_pad_inverse p y = Inr x"
  by (auto simp: inj_pad_forward_def inj_pad_inverse_def split: if_splits)

lemma is_tensor_nth:
  assumes "is_tensor t" "c < length t"
  shows "length (t ! c) = height t"
    and "y < height t \<Longrightarrow> length (t ! c ! y) = width t"
  using assms by (auto simp: is_tensor_def list_all_length)

lemma height_nth: "t \<noteq> [] \<Longrightarrow> height t = length (t ! 0)"
  by (cases t) (simp_all add: height_def)

lemma width_nth: "t \<noteq> [] \<Longrightarrow> t ! 0 \<noteq> [] \<Longrightarrow> width t = length (t ! 0 ! 0)"
  by (cases t; cases "t ! 0") (auto simp: width_def)

lemma psi_roundtrip:
  assumes "psi_forward P t = Inr u"
  shows "psi_inverse P u = Inr t"
proof -
  define bs where "bs = nat (block_size P)"
  define C where "C = length t"
  define H' where "H' = height t div bs"
  define W' where "W' = width t div bs"
  from assms have pos: "0 < block_size P" and tt: "is_tensor t"
    and dh: "bs dvd height t" and dw: "bs dvd width t"
    by (auto simp: psi_forward_def Let_def bs_def split: if_splits)
  from pos have bs: "0 < bs" by (simp add: bs_def)
  from dh bs have H: "height t = H' * bs" by (simp add: H'_def)
  from dw bs have W: "width t = W' * bs" by (simp add: W'_def)
  from assms have u: "u = map (\<lambda>m. sub_plane bs H' W' ((m div C) div bs) ((m div C) mod bs) (t ! (m mod C)))
                     [0..<bs * bs * C]"
    by (auto simp: psi_forward_def Let_def bs_def C_def H'_def W'_def split: if_splits)
  have lu: "length u = bs * bs * C" by (simp add: u)
  have plane: "\<And>m. m < bs * bs * C \<Longrightarrow> length (u ! m) = H'"
    by (simp add: u sub_plane_def)
  have row: "\<And>m h. m < bs * bs * C \<Longrightarrow> h < H' \<Longrightarrow> length (u ! m ! h) = W'"
    by (simp add: u sub_plane_def)
  have hu: "0 < C \<Longrightarrow> height u = H'"
  proof -
    assume "0 < C"
    with bs have "0 < bs * bs * C" by simp
    then have "u \<noteq> []" "length (u ! 0) = H'"
      using lu plane[of 0] by auto
    then show ?thesis by (simp add: height_nth)
  qed
  have wu: "0 < C \<Longrightarrow> 0 < H' \<Longrightarrow> width u = W'"
  proof -
    assume "0 < C" "0 < H'"
    with bs have "0 < bs * bs * C" by simp
    then have "u \<noteq> []" "length (u ! 0) = H'" "length (u ! 0 ! 0) = W'"
      using lu plane[of 0] row[of 0 0] \<open>0 < H'\<close> by auto
    then show ?thesis
      using \<open>0 < H'\<close> width_nth[of u] by auto
  qed
  have tu: "is_tensor u"
  proof (cases "0 < C")
    case False
    then show ?thesis by (simp add: u is_tensor_def)
  next
    case True
    show ?thesis
      unfolding is_tensor_def list_all_length
    proof (intro allI impI conjI)
      fix m assume m: "m < length u"
      then show "length (u ! m) = height u" using plane lu hu True by simp
      fix h assume "h < length (u ! m)"
      with m have h: "h < H'" using plane lu by simp
      then show "length (u ! m ! h) = width u" using row m lu wu True by simp
    qed
  qed
  have Cdiv: "length u div (bs * bs) = C" using bs by (simp add: lu)
  have elem: "u ! (((y mod bs) * bs + x mod bs) * C + c) ! (y div bs) ! (x div bs) = t ! c ! y ! x"
    if c: "c < C" and y: "y < H' * bs" and x: "x < W' * bs" for c y x
  proof -
    let ?k = "(y mod bs) * bs + x mod bs"
    have k: "?k < bs * bs"
    proof -
      have "y mod bs < bs" "x mod bs < bs" using bs by simp_all
      then have "?k < (y mod bs) * bs + bs" by simp
      also have "\<dots> = (y mod bs + 1) * bs" by simp
      also have "\<dots> \<le> bs * bs" using \<open>y mod bs < bs\<close> by (simp del: mult_Suc add_mult_distrib)
      finally show ?thesis .
    qed
    have m: "?k * C + c < bs * bs * C"
    proof -
      have "?k * C + c < ?k * C + C" using c by simp
      also have "\<dots> = (?k + 1) * C" by simp
      also have "\<dots> \<le> bs * bs * C" using k by (simp del: mult_Suc add_mult_distrib)
      finally show ?thesis .
    qed
    have d1: "(?k * C + c) div C = ?k" using c by simp
    have d2: "(?k * C + c) mod C = c" using c by simp
    have d3: "?k div bs = y mod bs" using bs by simp
    have d4: "?k mod bs = x mod bs" using bs by simp
    have yd: "y div bs < H'" using y bs by (simp add: less_mult_imp_div_less)
    have xd: "x div bs < W'" using x bs by (simp add: less_mult_imp_div_less)
    have "u ! (?k * C + c) = sub_plane bs H' W' (y mod bs) (x mod bs) (t ! c)"
      using m c by (simp add: u d1 d2 d3 d4 del: mult_Suc)
    then show ?thesis using yd xd by (simp add: sub_plane_def)
  qed
  have res: "map (\<lambda>c. map (\<lambda>y. map (\<lambda>x.
                        u ! (((y mod bs) * bs + x mod bs) * C + c) ! (y div bs) ! (x div bs))
                      [0..<width u * bs]) [0..<height u * bs]) [0..<C] = t" (is "?r = t")
  proof (rule nth_equalityI)
    show "length ?r = length t" by (simp add: C_def)
  next
    fix c assume "c < length ?r"
    then have c: "c < C" by simp
    then have hu': "height u = H'" using hu by simp
    have "?r ! c = map (\<lambda>y. map (\<lambda>x.
                        u ! (((y mod bs) * bs + x mod bs) * C + c) ! (y div bs) ! (x div bs))
                      [0..<width u * bs]) [0..<H' * bs]"
      using c hu' by simp
    also have "\<dots> = t ! c"
    proof (rule nth_equalityI)
      show "length (map (\<lambda>y. map (\<lambda>x.
                        u ! (((y mod bs) * bs + x mod bs) * C + c) ! (y div bs) ! (x div bs))
                      [0..<width u * bs]) [0..<H' * bs]) = length (t ! c)"
        using is_tensor_nth(1)[OF tt] c H by (simp add: C_def)
    next
      fix y assume "y < length (map (\<lambda>y. map (\<lambda>x.
                        u ! (((y mod bs) * bs + x mod bs) * C + c) ! (y div bs) ! (x div bs))
                      [0..<width u * bs]) [0..<H' * bs])"
      then have y: "y < H' * bs" by simp
      then have "0 < H'" by (cases H') simp_all
      then have wu': "width u = W'" using wu c by simp
      have ly: "length (t ! c ! y) = W' * bs"
        using is_tensor_nth(2)[OF tt, of c y] c y H W by (simp add: C_def)
      have "map (\<lambda>x. u ! (((y mod bs) * bs + x mod bs) * C + c) ! (y div bs) ! (x div bs))
              [0..<W' * bs] = t ! c ! y"
        by (rule nth_equalityI) (simp_all add: ly elem[OF c y])
      then show "map (\<lambda>y. map (\<lambda>x.
                        u ! (((y mod bs) * bs + x mod bs) * C + c) ! (y div bs) ! (x div bs))
                      [0..<width u * bs]) [0..<H' * bs] ! y = t ! c ! y"
        using y wu' by simp
    qed
    finally show "?r ! c = t ! c" .
  qed
  show ?thesis
    using pos tu lu Cdiv res
    by (simp add: psi_inverse_def Let_def bs_def[symmetric])
qed

subsection \<open>The block's inverse undoes its forward pass\<close>

lemma is_tensor_pad:
  assumes "is_tensor m"
  shows "is_tensor (m @ replicate k (zero_plane (height m) (width m)))"
proof (cases m)
  case Nil
  then show ?thesis
    by (cases k) (auto simp: is_tensor_def height_def width_def zero_plane_def list_all_iff)
next
  case (Cons p ps)
  then have "height (m @ replicate k (zero_plane (height m) (width m))) = height m"
    "width (m @ replicate k (zero_plane (height m) (width m))) = width m"
    by (simp_all add: height_def width_def)
  then show ?thesis
    using assms by (simp add: is_tensor_def zero_plane_def list_all_length nth_append)
qed

lemma merge_Inr: "merge a b = Inr m \<Longrightarrow> m = a @ b \<and> is_tensor (a @ b)"
  by (auto simp: merge_def split: if_splits)

lemma split_Inr:
  assumes "split p = Inr (a, b)"
  shows "p = a @ b \<and> length a = length p div 2"
proof -
  from assms have a: "a = take (length p div 2) p" and b: "b = drop (length p div 2) p"
    by (simp_all add: split_def Let_def)
  have "length p div 2 \<le> length p" by simp
  then have "length a = length p div 2" unfolding a by (simp only: length_take min.absorb2)
  moreover have "p = a @ b" unfolding a b by simp
  ultimately show ?thesis by simp
qed

lemma inj_pad_forward_Inr:
  "inj_pad_forward q m = Inr p \<Longrightarrow>
     0 \<le> pad_size q \<and> p = m @ replicate (nat (pad_size q)) (zero_plane (height m) (width m))"
  by (auto simp: inj_pad_forward_def split: if_splits)

lemma block_roundtrip_split:
  assumes fw: "irevnet_block_forward b (x1, x2) = Inr y"
  shows "irevnet_block_inverse b y =
           (if pad b \<noteq> 0 \<and> stride b = 1 then split (x1 @ x2) else Inr (x1, x2))"
proof -
  consider (padded) "pad b \<noteq> 0 \<and> stride b = 1"
    | (strided) "stride b = 2"
    | (plain) "\<not> (pad b \<noteq> 0 \<and> stride b = 1)" "stride b \<noteq> 2"
    by blast
  then show ?thesis
  proof cases
    case padded
    then have s2: "stride b \<noteq> 2" by simp
    from fw padded s2 obtain m p x1' x2' Fx2 y1 where
      m: "merge x1 x2 = Inr m" and p: "inj_pad_forward (inj_pad b) m = Inr p"
      and sp: "split p = Inr (x1', x2')" and F: "bottleneck_block b x2' = Inr Fx2"
      and a: "tadd Fx2 x1' = Inr y1" and y: "y = (x2', y1)"
      by (auto simp: irevnet_block_forward_def bindE_Inr_iff Let_def)
    from m have mm: "m = x1 @ x2" "is_tensor m" using merge_Inr by blast+
    from p have pp: "p = m @ replicate (nat (pad_size (inj_pad b))) (zero_plane (height m) (width m))"
      using inj_pad_forward_Inr by blast
    then have tp: "is_tensor p" using mm(2) is_tensor_pad by blast
    from sp have pe: "p = x1' @ x2'" using split_Inr by blast
    have 1: "tadd (tneg Fx2) y1 = Inr x1'" using a by (rule tadd_tneg_cancel)
    have 2: "merge x1' x2' = Inr p" using tp pe by (simp add: merge_def)
    have 3: "inj_pad_inverse (inj_pad b) p = Inr m" using p by (rule inj_pad_roundtrip)
    show ?thesis
      using padded s2 y F 1 2 3 mm(1)
      by (simp add: irevnet_block_inverse_def Let_def)
  next
    case strided
    then have np: "\<not> (pad b \<noteq> 0 \<and> stride b = 1)" by simp
    from fw strided np obtain Fx2 x1' x2' y1 where
      F: "bottleneck_block b x2 = Inr Fx2"
      and p1: "psi_forward (psi b) x1 = Inr x1'" and p2: "psi_forward (psi b) x2 = Inr x2'"
      and a: "tadd Fx2 x1' = Inr y1" and y: "y = (x2', y1)"
      by (auto simp: irevnet_block_forward_def bindE_Inr_iff Let_def)
    have 1: "psi_inverse (psi b) x2' = Inr x2" using p2 by (rule psi_roundtrip)
    have 2: "tadd (tneg Fx2) y1 = Inr x1'" using a by (rule tadd_tneg_cancel)
    have 3: "psi_inverse (psi b) x1' = Inr x1" using p1 by (rule psi_roundtrip)
    show ?thesis
      using strided np y F 1 2 3
      by (simp add: irevnet_block_inverse_def Let_def)
  next
    case plain
    from fw plain obtain Fx2 y1 where
      F: "bottleneck_block b x2 = Inr Fx2"
      and a: "tadd Fx2 x1 = Inr y1" and y: "y = (x2, y1)"
      by (auto simp: irevnet_block_forward_def bindE_Inr_iff Let_def)
    have 1: "tadd (tneg Fx2) y1 = Inr x1" using a by (rule tadd_tneg_cancel)
    show ?thesis
      using plain y F 1
      by (auto simp: irevnet_block_inverse_def Let_def)
  qed
qed

lemma block_roundtrip:
  assumes fw: "irevnet_block_forward b (x1, x2) = Inr y"
    and len: "pad b \<noteq> 0 \<and> stride b = 1 \<Longrightarrow> length x1 = (length x1 + length x2) div 2"
  shows "irevnet_block_inverse b y = Inr (x1, x2)"
  using block_roundtrip_split[OF fw] len by (simp add: split_floor)

text \<open>
  C1. For a valid block configuration (at stride 1 the block does not shrink the channel
  count: \<open>pad\<close> is not negative) and an input pair \<open>(x1, x2)\<close> of matching shape on which
  the forward pass returns, the inverse applied to the forward result returns \<open>(x1, x2)\<close>
  exactly. Elements are from any abelian group, and \<open>F\<close> is any function.
\<close>

theorem block_inverse_forward:
  assumes "stride b = 1 \<Longrightarrow> 0 \<le> pad b"
    and "shape x1 = shape x2"
    and "irevnet_block_forward b (x1, x2) = Inr y"
  shows "irevnet_block_inverse b y = Inr (x1, x2)"
proof -
  from assms(2) have "length x1 = length x2" by (simp add: shape_def)
  then have "length x1 = (length x1 + length x2) div 2" by simp
  with assms(3) show ?thesis by (rule block_roundtrip)
qed

lemma padded_block_forward:
  "irevnet_block_forward padded_block ([[[1, 2]]], [[[3, 4]]]) =
     Inr ([[[0, 0]], [[0, 0]]], [[[2, 3]], [[4, 5]]])"
  by code_simp

lemma strided_block_forward:
  "irevnet_block_forward strided_block ([[[1, 2], [3, 4]]], [[[5, 6], [7, 8]]]) =
     Inr ([[[5]], [[6]], [[7]], [[8]]], [[[27]], [[39]], [[53]], [[69]]])"
  by code_simp

theorem block_inverse_forward_witness:
  "(stride padded_block = 1 \<and> 0 \<le> pad padded_block) \<and>
   shape [[[1, 2 :: int]]] = shape [[[3, 4 :: int]]] \<and>
   irevnet_block_forward padded_block ([[[1, 2]]], [[[3, 4]]]) =
     Inr ([[[0, 0]], [[0, 0]]], [[[2, 3]], [[4, 5]]]) \<and>
   irevnet_block_inverse padded_block ([[[0, 0]], [[0, 0]]], [[[2, 3]], [[4, 5]]]) =
     Inr ([[[1, 2]]], [[[3, 4]]]) \<and>
   stride strided_block = 2 \<and>
   shape [[[1, 2], [3, 4 :: int]]] = shape [[[5, 6], [7, 8 :: int]]] \<and>
   irevnet_block_forward strided_block ([[[1, 2], [3, 4]]], [[[5, 6], [7, 8]]]) =
     Inr ([[[5]], [[6]], [[7]], [[8]]], [[[27]], [[39]], [[53]], [[69]]]) \<and>
   irevnet_block_inverse strided_block ([[[5]], [[6]], [[7]], [[8]]], [[[27]], [[39]], [[53]], [[69]]]) =
     Inr ([[[1, 2], [3, 4]]], [[[5, 6], [7, 8]]])"
proof -
  have c1: "stride padded_block = 1 \<and> 0 \<le> pad padded_block"
    by (simp add: padded_block_def)
  have s1: "shape [[[1, 2 :: int]]] = shape [[[3, 4 :: int]]]"
    by (simp add: shape_def height_def width_def)
  have c2: "stride strided_block = 2"
    by (simp add: strided_block_def)
  have s2: "shape [[[1, 2], [3, 4 :: int]]] = shape [[[5, 6], [7, 8 :: int]]]"
    by (simp add: shape_def height_def width_def)
  have i1: "irevnet_block_inverse padded_block ([[[0, 0]], [[0, 0]]], [[[2, 3]], [[4, 5]]]) =
      Inr ([[[1, 2]]], [[[3, 4]]])"
    using block_inverse_forward [OF _ s1 padded_block_forward] c1 by simp
  have i2: "irevnet_block_inverse strided_block
        ([[[5]], [[6]], [[7]], [[8]]], [[[27]], [[39]], [[53]], [[69]]]) =
      Inr ([[[1, 2], [3, 4]]], [[[5, 6], [7, 8]]])"
    using block_inverse_forward [OF _ s2 strided_block_forward] c2 by simp
  show ?thesis
    using c1 s1 c2 s2 i1 i2 padded_block_forward strided_block_forward by simp
qed

subsection \<open>The steps of the forward pass and of the inverse\<close>





lemma inverse_plain:
  "\<not> (pad b \<noteq> 0 \<and> stride b = 1) \<Longrightarrow> stride b \<noteq> 2 \<Longrightarrow>
   irevnet_block_inverse b (x2, y1) =
     bindE (bottleneck_block b x2) (\<lambda>F. bindE (tadd (tneg F) y1) (\<lambda>x1. Inr (x1, x2)))"
  by (auto simp: irevnet_block_inverse_def Let_def)

lemma inverse_strided:
  "stride b = 2 \<Longrightarrow>
   irevnet_block_inverse b (x2, y1) =
     bindE (psi_inverse (psi b) x2)
       (\<lambda>x2'. bindE (bottleneck_block b x2')
          (\<lambda>F. bindE (tadd (tneg F) y1)
             (\<lambda>x1. bindE (psi_inverse (psi b) x1) (\<lambda>x1'. Inr (x1', x2')))))"
  by (simp add: irevnet_block_inverse_def Let_def)

lemma inverse_padded:
  "pad b \<noteq> 0 \<and> stride b = 1 \<Longrightarrow>
   irevnet_block_inverse b (x2, y1) =
     bindE (bottleneck_block b x2)
       (\<lambda>F. bindE (tadd (tneg F) y1)
          (\<lambda>x1. bindE (merge x1 x2)
             (\<lambda>m. bindE (inj_pad_inverse (inj_pad b) m) split)))"
  by (simp add: irevnet_block_inverse_def Let_def)





text \<open>
  C6. The inverse of a block on an output pair \<open>(x2, y1)\<close>: at stride 2 it first undoes
  the spatial permutation on \<open>x2\<close>; it evaluates \<open>F\<close> on that \<open>x2\<close>, negates the result and
  adds \<open>y1\<close> to recover \<open>x1\<close>; at stride 2 it undoes the permutation on \<open>x1\<close>; and when
  the block pads (\<open>pad \<noteq> 0\<close> at stride 1) it merges the pair, truncates the injected
  channels and splits again. These are all its steps, in this order.
\<close>

theorem block_inverse_steps:
  "irevnet_block_inverse b (x2, y1) =
     (if stride b = 2
      then bindE (psi_inverse (psi b) x2)
             (\<lambda>x2'. bindE (bottleneck_block b x2')
                (\<lambda>F. bindE (tadd (tneg F) y1)
                   (\<lambda>x1. bindE (psi_inverse (psi b) x1) (\<lambda>x1'. Inr (x1', x2')))))
      else bindE (bottleneck_block b x2)
             (\<lambda>F. bindE (tadd (tneg F) y1)
                (\<lambda>x1. if pad b \<noteq> 0 \<and> stride b = 1
                       then bindE (merge x1 x2)
                              (\<lambda>m. bindE (inj_pad_inverse (inj_pad b) m) split)
                       else Inr (x1, x2))))"
proof (cases "stride b = 2")
  case True
  then show ?thesis by (simp add: inverse_strided)
next
  case False
  then show ?thesis
    by (cases "pad b \<noteq> 0 \<and> stride b = 1") (auto simp: inverse_padded inverse_plain)
qed

lemma strided_inverse_steps:
  "bindE (psi_inverse (psi strided_block) [[[5]], [[6]], [[7]], [[8]]])
     (\<lambda>x2'. bindE (bottleneck_block strided_block x2')
        (\<lambda>F. bindE (tadd (tneg F) [[[27]], [[39]], [[53]], [[69]]])
           (\<lambda>x1. bindE (psi_inverse (psi strided_block) x1) (\<lambda>x1'. Inr (x1', x2'))))) =
   Inr ([[[1, 2], [3, 4]]], [[[5, 6], [7, 8]]])"
  by code_simp

lemma padded_inverse_steps:
  "bindE (bottleneck_block padded_block [[[0, 0]], [[0, 0]]])
     (\<lambda>F. bindE (tadd (tneg F) [[[2, 3]], [[4, 5]]])
        (\<lambda>x1. bindE (merge x1 [[[0, 0]], [[0, 0]]])
           (\<lambda>m. bindE (inj_pad_inverse (inj_pad padded_block) m) split))) =
   Inr ([[[1, 2]]], [[[3, 4]]])"
  by code_simp

theorem block_inverse_steps_witness:
  "irevnet_block_inverse strided_block ([[[5]], [[6]], [[7]], [[8]]], [[[27]], [[39]], [[53]], [[69]]]) =
     Inr ([[[1, 2], [3, 4]]], [[[5, 6], [7, 8]]]) \<and>
   irevnet_block_inverse padded_block ([[[0, 0]], [[0, 0]]], [[[2, 3]], [[4, 5]]]) =
     Inr ([[[1, 2]]], [[[3, 4]]])"
proof -
  have s: "stride strided_block = 2" by (simp add: strided_block_def)
  have p: "stride padded_block \<noteq> 2 \<and> pad padded_block \<noteq> 0 \<and> stride padded_block = 1"
    by (simp add: padded_block_def)
  show ?thesis
    using block_inverse_steps [of strided_block "[[[5]], [[6]], [[7]], [[8]]]"
        "[[[27]], [[39]], [[53]], [[69]]]"]
      block_inverse_steps [of padded_block "[[[0, 0]], [[0, 0]]]" "[[[2, 3]], [[4, 5]]]"]
      strided_inverse_steps padded_inverse_steps s p
    by simp
qed


lemma plain_block_forward:
  "irevnet_block_forward plain_block ([[[1, 2]]], [[[3, 4]]]) = Inr ([[[3, 4]]], [[[11, 19]]])"
  by code_simp








subsection \<open>Injective padding\<close>




lemma odd_block_forward:
  "irevnet_block_forward odd_block ([[[1, 2]]], [[[3, 4]], [[5, 6]]]) =
     Inr ([[[5, 6]], [[0, 0]]], [[[27, 39]], [[4, 5]]])"
  by code_simp



subsection \<open>The network's inverse undoes its forward pass\<close>


lemma fold_error:
  "fold (\<lambda>i out. bindE out (g i)) is (Inl e) = Inl e"
  by (induction "is") simp_all

lemma bindE_assoc: "bindE (bindE m f) g = bindE m (\<lambda>v. bindE (f v) g)"
  by (cases m) simp_all







lemma small_net_init:
  "iRevNet_init square_sequential [1] [1] 10 (Some [2]) 2 0 True (Some [1, 2, 2]) 4 =
     Inr small_net"
  by (simp add: iRevNet_init_def irevnet_stack_def stage_schedule_def irevnet_block_init_def
      small_net_def square_sequential_def Let_def)








subsection \<open>Construction of the network\<close>

text \<open>
  C10. When \<open>nChannels\<close> is omitted (\<^verbatim>\<open>None\<close>) or empty, \<^verbatim>\<open>iRevNet.__init__\<close> takes as the
  channel schedule the four-stage list \<open>[c, c * 4, c * 16, c * 64]\<close> with \<open>c = in_ch div 2\<close>
  and \<open>in_ch = in_shape[0] * 2 ^ init_ds\<close>, whatever the lengths of \<open>nBlocks\<close> and
  \<open>nStrides\<close>: the stack is the one \<^verbatim>\<open>irevnet_stack\<close> builds from this list and \<open>in_ch\<close>,
  the head is sized by its last entry (\<open>c * 64 * 2\<close> features), and the network is the
  one constructed from this list given explicitly.
\<close>

theorem default_channel_schedule:
  assumes "nChannels = None \<or> nChannels = Some []" and "3 \<le> length in_shape"
  shows "iRevNet_init sequential nBlocks nStrides nClasses nChannels init_ds dropout_rate affineBN
           (Some in_shape) mult =
         bindE (irevnet_stack True (irevnet_block_init sequential)
                  [in_shape ! 0 * 2 ^ init_ds div 2,
                   in_shape ! 0 * 2 ^ init_ds div 2 * 4,
                   in_shape ! 0 * 2 ^ init_ds div 2 * 16,
                   in_shape ! 0 * 2 ^ init_ds div 2 * 64]
                  nBlocks nStrides dropout_rate affineBN (in_shape ! 0 * 2 ^ init_ds) mult)
           (\<lambda>(block_list, frst).
              Inr \<lparr>ds = in_shape ! 2 div 2 ^ (count_list nStrides 2 + init_ds div 2),
                   self_init_ds = init_ds, self_in_ch = in_shape ! 0 * 2 ^ init_ds,
                   self_nBlocks = nBlocks, self_first = frst,
                   init_psi = psi_init (int init_ds), stack = block_list,
                   bn1 = in_shape ! 0 * 2 ^ init_ds div 2 * 64 * 2,
                   linear = (in_shape ! 0 * 2 ^ init_ds div 2 * 64 * 2, nClasses)\<rparr>) \<and>
         iRevNet_init sequential nBlocks nStrides nClasses nChannels init_ds dropout_rate affineBN
           (Some in_shape) mult =
         iRevNet_init sequential nBlocks nStrides nClasses
           (Some [in_shape ! 0 * 2 ^ init_ds div 2,
                  in_shape ! 0 * 2 ^ init_ds div 2 * 4,
                  in_shape ! 0 * 2 ^ init_ds div 2 * 16,
                  in_shape ! 0 * 2 ^ init_ds div 2 * 64])
           init_ds dropout_rate affineBN (Some in_shape) mult"
  using assms by (auto simp: iRevNet_init_def Let_def)

lemma default_stack:
  "irevnet_stack True (irevnet_block_init square_sequential) [1, 4, 16, 64] [1, 1] [1, 2]
     0 True 2 4 =
   Inr (stack default_net, False)"
  by (simp add: irevnet_stack_def stage_schedule_def irevnet_block_init_def
      default_net_def square_sequential_def Let_def)

theorem default_channel_schedule_witness:
  "3 \<le> length [2, 2, 2 :: int] \<and>
   iRevNet_init square_sequential [1, 1] [1, 2] 10 None 0 0 True (Some [2, 2, 2]) 4 =
     Inr default_net \<and>
   iRevNet_init square_sequential [1, 1] [1, 2] 10 (Some []) 0 0 True (Some [2, 2, 2]) 4 =
     Inr default_net \<and>
   iRevNet_init square_sequential [1, 1] [1, 2] 10 (Some [1, 4, 16, 64]) 0 0 True
     (Some [2, 2, 2]) 4 = Inr default_net \<and>
   map pad (stack default_net) = [0, 6] \<and> map stride (stack default_net) = [1, 2] \<and>
   bn1 default_net = 128"
proof -
  have l: "3 \<le> length [2, 2, 2 :: int]" by simp
  have n: "(None :: int list option) = None \<or> (None :: int list option) = Some []" by simp
  have e: "Some ([] :: int list) = None \<or> Some ([] :: int list) = Some []" by simp
  note a = default_channel_schedule [OF n l, of square_sequential "[1, 1]" "[1, 2]" 10 0 0 True 4]
  note b = default_channel_schedule [OF e l, of square_sequential "[1, 1]" "[1, 2]" 10 0 0 True 4]
  have 1: "iRevNet_init square_sequential [1, 1] [1, 2] 10 None 0 0 True (Some [2, 2, 2]) 4 =
      Inr default_net"
    using a [THEN conjunct1] default_stack by (simp add: default_net_def psi_init_def)
  have 2: "iRevNet_init square_sequential [1, 1] [1, 2] 10 (Some []) 0 0 True (Some [2, 2, 2]) 4 =
      Inr default_net"
    using b [THEN conjunct1] default_stack by (simp add: default_net_def psi_init_def)
  have 3: "iRevNet_init square_sequential [1, 1] [1, 2] 10 (Some [1, 4, 16, 64]) 0 0 True
      (Some [2, 2, 2]) 4 = Inr default_net"
    using a [THEN conjunct2] 1 by simp
  have 4: "map pad (stack default_net) = [0, 6]" "map stride (stack default_net) = [1, 2]"
    "bn1 default_net = 128"
    by (simp_all add: default_net_def)
  show ?thesis using l 1 2 3 4 by (intro conjI)
qed

lemma zip3_take:
  "zip xs (zip ys zs) =
     zip (take (min (length xs) (min (length ys) (length zs))) xs)
       (zip (take (min (length xs) (min (length ys) (length zs))) ys)
            (take (min (length xs) (min (length ys) (length zs))) zs))"
proof -
  let ?k = "min (length xs) (min (length ys) (length zs))"
  have "zip xs (zip ys zs) = take ?k (zip xs (zip ys zs))" by simp
  also have "\<dots> = zip (take ?k xs) (zip (take ?k ys) (take ?k zs))"
    by (simp only: take_zip)
  finally show ?thesis .
qed

lemma build_blocks_total:
  assumes "\<And>i c s f d a m. \<exists>b. block i c s f d a m = Inr b"
  shows "\<exists>r. build_blocks block dr aff mult ic f zs = Inr r"
proof (induction zs arbitrary: ic f)
  case Nil
  then show ?case by simp
next
  case (Cons z zs)
  obtain c s where z: "z = (c, s)" by (cases z)
  from assms obtain b where b: "block ic c s f dr aff mult = Inr b" by blast
  from Cons obtain r where r: "build_blocks block dr aff mult (2 * c) False zs = Inr r" by blast
  show ?case using b r by (cases r) (simp add: z)
qed

text \<open>
  C3, amended. The stack is built without any check of the list lengths: the result is
  the one for the three lists cut to the length of the shortest, and when the block
  constructor does not raise the construction returns a stack.
\<close>

theorem stack_truncates_schedule:
  "irevnet_stack flag block nChannels nBlocks nStrides dropout_rate affineBN in_ch mult =
     irevnet_stack flag block
       (take (min (length nChannels) (min (length nBlocks) (length nStrides))) nChannels)
       (take (min (length nChannels) (min (length nBlocks) (length nStrides))) nBlocks)
       (take (min (length nChannels) (min (length nBlocks) (length nStrides))) nStrides)
       dropout_rate affineBN in_ch mult \<and>
   ((\<forall>i c s f d a m. \<exists>b. block i c s f d a m = Inr b) \<longrightarrow>
      (\<exists>r. irevnet_stack flag block nChannels nBlocks nStrides dropout_rate affineBN in_ch mult
             = Inr r))"
proof (intro conjI impI)
  have "stage_schedule nChannels nBlocks nStrides =
     stage_schedule
       (take (min (length nChannels) (min (length nBlocks) (length nStrides))) nChannels)
       (take (min (length nChannels) (min (length nBlocks) (length nStrides))) nBlocks)
       (take (min (length nChannels) (min (length nBlocks) (length nStrides))) nStrides)"
    unfolding stage_schedule_def using zip3_take[of nChannels nBlocks nStrides] by simp
  then show "irevnet_stack flag block nChannels nBlocks nStrides dropout_rate affineBN in_ch mult =
     irevnet_stack flag block
       (take (min (length nChannels) (min (length nBlocks) (length nStrides))) nChannels)
       (take (min (length nChannels) (min (length nBlocks) (length nStrides))) nBlocks)
       (take (min (length nChannels) (min (length nBlocks) (length nStrides))) nStrides)
       dropout_rate affineBN in_ch mult"
    by (simp add: irevnet_stack_def)
next
  assume "\<forall>i c s f d a m. \<exists>b. block i c s f d a m = Inr b"
  then show "\<exists>r. irevnet_stack flag block nChannels nBlocks nStrides dropout_rate affineBN in_ch mult
             = Inr r"
    using build_blocks_total[of block] by (simp add: irevnet_stack_def split: prod.splits)
qed

theorem stack_truncates_schedule_witness:
  "(\<forall>i c s f d a m. \<exists>b. record_args i c s f d a m = Inr b) \<and>
   irevnet_stack True record_args [16, 64] [1] [1, 2] 0 True 32 4 =
     irevnet_stack True record_args [16] [1] [1] 0 True 32 4 \<and>
   (\<exists>r. irevnet_stack True record_args [16, 64] [1] [1, 2] 0 True 32 4 = Inr r)"
proof -
  have t: "\<forall>i c s f d a m. \<exists>b. record_args i c s f d a m = Inr b"
    by (simp add: record_args_def)
  note th = stack_truncates_schedule [of True record_args "[16, 64]" "[1]" "[1, 2]" 0 True 32 4]
  from th have a: "irevnet_stack True record_args [16, 64] [1] [1, 2] 0 True 32 4 =
     irevnet_stack True record_args [16] [1] [1] 0 True 32 4"
    by simp
  from th t have e: "\<exists>r. irevnet_stack True record_args [16, 64] [1] [1, 2] 0 True 32 4 = Inr r"
    by blast
  from t a e show ?thesis by (intro conjI)
qed

lemma mismatched_net_init:
  "iRevNet_init square_sequential [1] [1, 2] 10 (Some [16, 64]) 0 0 True (Some [32, 8, 8]) 4 =
     Inr mismatched_net"
  by (simp add: iRevNet_init_def irevnet_stack_def stage_schedule_def irevnet_block_init_def
      mismatched_net_def square_sequential_def Let_def numeral_2_eq_2)

text \<open>
  C3 as stated fails: with two channel counts, one block count and two strides, neither
  \<^verbatim>\<open>irevnet_stack\<close> nor \<^verbatim>\<open>__init__\<close> raises; the stack has the one block of the first
  stage.
\<close>

theorem mismatched_lengths_counterexample:
  "length [16, 64 :: int] \<noteq> length [1 :: int] \<and>
   irevnet_stack True record_args [16, 64] [1] [1, 2] 0 True 32 4 = Inr ([(32, 16, 1, True)], False) \<and>
   iRevNet_init square_sequential [1] [1, 2] 10 (Some [16, 64]) 0 0 True (Some [32, 8, 8]) 4 =
     Inr mismatched_net"
  using mismatched_net_init
  by (simp add: irevnet_stack_def stage_schedule_def record_args_def)

lemma fold_schedule:
  "fold (\<lambda>(channel, depth, strd) (strides, channels).
             (strides @ ([strd] @ replicate (nat (depth - 1)) 1),
              channels @ replicate (nat depth) channel)) zs (S, C) =
     (S @ concat (map (\<lambda>(c, d, s). s # replicate (nat (d - 1)) 1) zs),
      C @ concat (map (\<lambda>(c, d, s). replicate (nat d) c) zs))"
  by (induction zs arbitrary: S C) (auto simp: case_prod_beta)

lemma stage_schedule_concat:
  assumes "length nChannels = length nBlocks" "length nBlocks = length nStrides"
  shows "stage_schedule nChannels nBlocks nStrides =
     (concat (map2 (\<lambda>d s. s # replicate (nat (d - 1)) 1) nBlocks nStrides),
      concat (map2 (\<lambda>c d. replicate (nat d) c) nChannels nBlocks))"
proof -
  let ?zs = "zip nChannels (zip nBlocks nStrides)"
  have s: "map snd ?zs = zip nBlocks nStrides" using assms by simp
  have "map (\<lambda>(c, d, s). s # replicate (nat (d - 1)) 1) ?zs =
        map (\<lambda>(d, s). s # replicate (nat (d - 1)) 1) (map snd ?zs)"
    by (simp add: case_prod_beta comp_def)
  then have 1: "map (\<lambda>(c, d, s). s # replicate (nat (d - 1)) 1) ?zs =
        map2 (\<lambda>d s. s # replicate (nat (d - 1)) 1) nBlocks nStrides"
    unfolding s .
  have f: "zip nChannels nBlocks = map (\<lambda>(c, d, s). (c, d)) ?zs"
  proof -
    have "zip nChannels nBlocks = zip nChannels (map fst (zip nBlocks nStrides))"
      using assms by simp
    also have "\<dots> = map (\<lambda>(c, d, s). (c, d)) ?zs"
      unfolding zip_map2 by (simp add: case_prod_beta)
    finally show ?thesis .
  qed
  have 2: "map (\<lambda>(c, d, s). replicate (nat d) c) ?zs =
        map2 (\<lambda>c d. replicate (nat d) c) nChannels nBlocks"
    unfolding f by (simp add: case_prod_beta comp_def)
  show ?thesis
    unfolding stage_schedule_def fold_schedule using 1 2 by simp
qed

lemma schedule_lengths:
  assumes "length nChannels = length nBlocks" "length nBlocks = length nStrides"
    and "list_all (\<lambda>d. 1 \<le> d) nBlocks"
  shows "length (concat (map2 (\<lambda>d s. s # replicate (nat (d - 1)) 1) nBlocks nStrides)) =
         length (concat (map2 (\<lambda>c d. replicate (nat d) c) nChannels nBlocks))"
  using assms
proof (induction nChannels nBlocks nStrides rule: list_induct3)
  case Nil
  then show ?case by simp
next
  case (Cons c cs d ds s ss)
  then have "1 \<le> d" by simp
  then have "Suc (nat (d - 1)) = nat d" by simp
  with Cons show ?case by simp
qed

lemma take_flags: "take n (False # replicate n False) = replicate n False"
proof -
  have "take n (replicate (Suc n) False) = replicate n False"
    by (simp only: take_replicate) simp
  then show ?thesis by simp
qed

lemma build_blocks_record:
  "\<exists>blocks. build_blocks record_args dr aff m ic f zs = Inr (blocks, f \<and> zs = []) \<and>
     map (\<lambda>(i, c, s, f). (c, s)) blocks = zs \<and>
     map (\<lambda>(i, c, s, f). i) blocks = butlast (ic # map (\<lambda>(c, s). 2 * c) zs) \<and>
     map (\<lambda>(i, c, s, f). f) blocks = take (length zs) (f # replicate (length zs) False)"
proof (induction zs arbitrary: ic f)
  case Nil
  then show ?case by simp
next
  case (Cons z zs)
  obtain c s where z: "z = (c, s)" by (cases z)
  have "\<exists>blocks. build_blocks record_args dr aff m (2 * c) False zs = Inr (blocks, False) \<and>
     map (\<lambda>(i, c, s, f). (c, s)) blocks = zs \<and>
     map (\<lambda>(i, c, s, f). i) blocks = butlast (2 * c # map (\<lambda>(c, s). 2 * c) zs) \<and>
     map (\<lambda>(i, c, s, f). f) blocks = take (length zs) (False # replicate (length zs) False)"
    using Cons[of "2 * c" False] by (simp only: simp_thms)
  then obtain blocks where
    b: "build_blocks record_args dr aff m (2 * c) False zs = Inr (blocks, False)"
    and 1: "map (\<lambda>(i, c, s, f). (c, s)) blocks = zs"
    and 2: "map (\<lambda>(i, c, s, f). i) blocks = butlast (2 * c # map (\<lambda>(c, s). 2 * c) zs)"
    and 3: "map (\<lambda>(i, c, s, f). f) blocks = take (length zs) (False # replicate (length zs) False)"
    by blast
  have fl: "map (\<lambda>(i, c, s, f). f) blocks = replicate (length zs) False"
    using 3 by (simp only: take_flags)
  have bl: "butlast (ic # (2 * c # xs)) = ic # butlast (2 * c # xs)" for xs :: "int list"
    by simp
  have "build_blocks record_args dr aff m ic f ((c, s) # zs) =
      bindE (record_args ic c s f dr aff m)
        (\<lambda>b. bindE (build_blocks record_args dr aff m (2 * c) False zs)
           (\<lambda>(block_list, self_first). Inr (b # block_list, self_first)))"
    by (simp only: build_blocks.simps)
  also have "\<dots> = Inr ((ic, c, s, f) # blocks, False)"
    unfolding b by (simp add: record_args_def)
  finally have r: "build_blocks record_args dr aff m ic f (z # zs) =
      Inr ((ic, c, s, f) # blocks, f \<and> z # zs = [])"
    by (simp add: z)
  have i: "map (\<lambda>(i, c, s, f). i) ((ic, c, s, f) # blocks) =
      butlast (ic # map (\<lambda>(c, s). 2 * c) (z # zs))"
    by (simp add: z bl 2 del: butlast.simps)
  have g: "map (\<lambda>(i, c, s, f). f) ((ic, c, s, f) # blocks) =
      take (length (z # zs)) (f # replicate (length (z # zs)) False)"
    by (simp add: fl take_flags)
  have k: "map (\<lambda>(i, c, s, f). (c, s)) ((ic, c, s, f) # blocks) = z # zs"
    by (simp add: z 1)
  show ?case
    by (intro exI[of _ "(ic, c, s, f) # blocks"] conjI) (rule r k i g)+
qed

text \<open>
  The schedule for stages of at least one block each, read off the constructor
  arguments: the strides are, stage by stage, the stage's stride followed by 1 for every
  further block; the channels are the stage's channel count for every block; the input
  channel count of the first block is \<open>in_ch\<close> and that of every later block is twice the
  output channel count of the block before it; only the first block is built with
  \<open>first = True\<close>.
\<close>

theorem schedule_expansion:
  assumes "length nChannels = length nBlocks" and "length nBlocks = length nStrides"
    and "list_all (\<lambda>d. 1 \<le> d) nBlocks"
  shows "\<exists>blocks.
     irevnet_stack True record_args nChannels nBlocks nStrides dropout_rate affineBN in_ch mult =
       Inr (blocks, blocks = []) \<and>
     map (\<lambda>(i, c, s, f). s) blocks =
       concat (map2 (\<lambda>d s. s # replicate (nat (d - 1)) 1) nBlocks nStrides) \<and>
     map (\<lambda>(i, c, s, f). c) blocks =
       concat (map2 (\<lambda>c d. replicate (nat d) c) nChannels nBlocks) \<and>
     map (\<lambda>(i, c, s, f). i) blocks = butlast (in_ch # map (\<lambda>(i, c, s, f). 2 * c) blocks) \<and>
     map (\<lambda>(i, c, s, f). f) blocks = take (length blocks) (True # replicate (length blocks) False)"
proof -
  let ?strides = "concat (map2 (\<lambda>d s. s # replicate (nat (d - 1)) 1) nBlocks nStrides)"
  let ?channels = "concat (map2 (\<lambda>c d. replicate (nat d) c) nChannels nBlocks)"
  let ?zs = "zip ?channels ?strides"
  have len: "length ?strides = length ?channels"
    using assms by (rule schedule_lengths)
  have st: "irevnet_stack True record_args nChannels nBlocks nStrides dropout_rate affineBN in_ch mult =
      build_blocks record_args dropout_rate affineBN mult in_ch True ?zs"
    unfolding irevnet_stack_def stage_schedule_concat[OF assms(1,2)] by simp
  from build_blocks_record[of dropout_rate affineBN mult in_ch True ?zs] obtain blocks where
    b: "build_blocks record_args dropout_rate affineBN mult in_ch True ?zs = Inr (blocks, True \<and> ?zs = [])"
    and cs: "map (\<lambda>(i, c, s, f). (c, s)) blocks = ?zs"
    and ic: "map (\<lambda>(i, c, s, f). i) blocks = butlast (in_ch # map (\<lambda>(c, s). 2 * c) ?zs)"
    and fl: "map (\<lambda>(i, c, s, f). f) blocks = take (length ?zs) (True # replicate (length ?zs) False)"
    by blast
  have lb: "length blocks = length ?zs" using cs by (metis length_map)
  have e: "(True \<and> ?zs = []) = (blocks = [])" using lb by (metis length_0_conv)
  have "map (\<lambda>(i, c, s, f). s) blocks = map snd (map (\<lambda>(i, c, s, f). (c, s)) blocks)"
    by (simp add: case_prod_beta comp_def)
  then have 1: "map (\<lambda>(i, c, s, f). s) blocks = ?strides"
    unfolding cs using len by simp
  have "map (\<lambda>(i, c, s, f). c) blocks = map fst (map (\<lambda>(i, c, s, f). (c, s)) blocks)"
    by (simp add: case_prod_beta comp_def)
  then have 2: "map (\<lambda>(i, c, s, f). c) blocks = ?channels"
    unfolding cs using len by simp
  have "map (\<lambda>(c, s). 2 * c) ?zs = map (\<lambda>(c, s). 2 * c) (map (\<lambda>(i, c, s, f). (c, s)) blocks)"
    unfolding cs ..
  also have "\<dots> = map (\<lambda>(i, c, s, f). 2 * c) blocks"
    by (simp add: case_prod_beta comp_def)
  finally have 3: "map (\<lambda>(i, c, s, f). i) blocks = butlast (in_ch # map (\<lambda>(i, c, s, f). 2 * c) blocks)"
    using ic by simp
  have 4: "map (\<lambda>(i, c, s, f). f) blocks = take (length blocks) (True # replicate (length blocks) False)"
    using fl lb by simp
  have 0: "irevnet_stack True record_args nChannels nBlocks nStrides dropout_rate affineBN in_ch mult =
       Inr (blocks, blocks = [])"
    using st b e by simp
  show ?thesis
    by (intro exI[of _ blocks] conjI) (rule 0 1 2 3 4)+
qed

lemma spec_stack:
  "irevnet_stack True record_args [16, 64] [2, 3] [1, 2] 0 True 32 4 =
     Inr ([(32, 16, 1, True), (32, 16, 1, False), (32, 64, 2, False), (128, 64, 1, False),
           (128, 64, 1, False)], False)"
  by (simp add: irevnet_stack_def stage_schedule_def record_args_def numeral_3_eq_3 numeral_2_eq_2)

theorem schedule_expansion_witness:
  "length [16, 64 :: int] = length [2, 3 :: int] \<and> length [2, 3 :: int] = length [1, 2 :: int] \<and>
   list_all (\<lambda>d. 1 \<le> d) [2, 3 :: int] \<and>
   irevnet_stack True record_args [16, 64] [2, 3] [1, 2] 0 True 32 4 =
     Inr ([(32, 16, 1, True), (32, 16, 1, False), (32, 64, 2, False), (128, 64, 1, False),
           (128, 64, 1, False)], False) \<and>
   map (\<lambda>(i, c, s, f). s)
     [(32, 16, 1, True), (32, 16, 1, False), (32, 64, 2, False), (128, 64, 1, False),
      (128 :: int, 64 :: int, 1 :: int, False)] = [1, 1, 2, 1, 1]"
proof -
  have h: "length [16, 64 :: int] = length [2, 3 :: int]" "length [2, 3 :: int] = length [1, 2 :: int]"
    "list_all (\<lambda>d. 1 \<le> d) [2, 3 :: int]" by simp_all
  from schedule_expansion [OF h, of 0 True 32 4] obtain blocks where
    b: "irevnet_stack True record_args [16, 64] [2, 3] [1, 2] 0 True 32 4 = Inr (blocks, blocks = [])"
    and s: "map (\<lambda>(i, c, s, f). s) blocks =
       concat (map2 (\<lambda>d s. s # replicate (nat (d - 1)) 1) [2, 3] [1, 2])"
    by blast
  from b have "blocks = [(32, 16, 1, True), (32, 16, 1, False), (32, 64, 2, False), (128, 64, 1, False),
           (128, 64, 1, False)]"
    unfolding spec_stack by simp
  with s have "map (\<lambda>(i, c, s, f). s)
     [(32, 16, 1, True), (32, 16, 1, False), (32, 64, 2, False), (128, 64, 1, False),
      (128 :: int, 64 :: int, 1 :: int, False)] = [1, 1, 2, 1, 1]"
    by (simp add: numeral_3_eq_3 numeral_2_eq_2)
  then show ?thesis using h spec_stack by simp
qed

text \<open>
  C4 at a schedule with an empty stage: for \<open>nBlocks = [0, 1]\<close>, \<open>nStrides = [2, 1]\<close> and
  \<open>nChannels = [16, 64]\<close> the stack has one block, of the second stage (64 channels), and
  it is built with stride 2, the stride of the empty first stage, not with its own
  stage's stride 1.
\<close>

theorem zero_depth_stage_misaligned:
  "irevnet_stack True record_args [16, 64] [0, 1] [2, 1] 0 True 32 4 =
     Inr ([(32, 64, 2, True)], False)"
  by (simp add: irevnet_stack_def stage_schedule_def record_args_def)


end
